theory Spec2Isabelle
  imports Main "HOL-Library.Word"
begin

unbundle bit_operations_syntax

section \<open>The Oldland CPU simulator (sim/main.c)\<close>

text \<open>
  A shallow embedding of the instruction-set simulator of \<^verbatim>\<open>sim/main.c\<close> and of the
  debugger's protocol constants of \<^verbatim>\<open>debugger/protocol.h\<close>.

  \<^item> \<^verbatim>\<open>uint32_t\<close> is \<open>32 word\<close>, \<^verbatim>\<open>uint16_t\<close> is \<open>16 word\<close>; a register number
    (a three-bit field of the instruction word, the index into \<^verbatim>\<open>regs[8]\<close>) is
    \<open>3 word\<close>, so the register file has exactly eight slots.
  \<^item> \<^verbatim>\<open>die\<close> and a failing \<^verbatim>\<open>assert\<close> end the process: a function that can
    reach one returns \<open>Inl (fault, state)\<close>, the state being the one at the point of
    death (what the script was told until then stays observable).
  \<^item> The tracing to \<^verbatim>\<open>oldland.trace\<close> is formatted text output and is left out.
\<close>

subsection \<open>Enumerations\<close>

text \<open>\<^verbatim>\<open>enum sim_status\<close>\<close>

abbreviation (input) SIM_SUCCESS :: "32 word" where "SIM_SUCCESS \<equiv> 0xffffffff"
abbreviation (input) SIM_FAIL :: "32 word" where "SIM_FAIL \<equiv> 0xfffffffe"
abbreviation (input) SIM_CONTINUE :: "32 word" where "SIM_CONTINUE \<equiv> 0x00000000"

text \<open>\<^verbatim>\<open>enum instruction_class\<close>\<close>

abbreviation (input) INSTR_ARITHMETIC :: "32 word" where "INSTR_ARITHMETIC \<equiv> 0"
abbreviation (input) INSTR_BRANCH :: "32 word" where "INSTR_BRANCH \<equiv> 1"
abbreviation (input) INSTR_LDR_STR :: "32 word" where "INSTR_LDR_STR \<equiv> 2"

text \<open>\<^verbatim>\<open>enum arith_opcode\<close>\<close>

abbreviation (input) ARITH_ADD :: "32 word" where "ARITH_ADD \<equiv> 0x0"
abbreviation (input) ARITH_SUB :: "32 word" where "ARITH_SUB \<equiv> 0x2"
abbreviation (input) ARITH_SUBC :: "32 word" where "ARITH_SUBC \<equiv> 0x3"
abbreviation (input) ARITH_LSL :: "32 word" where "ARITH_LSL \<equiv> 0x4"
abbreviation (input) ARITH_LSR :: "32 word" where "ARITH_LSR \<equiv> 0x5"
abbreviation (input) ARITH_AND :: "32 word" where "ARITH_AND \<equiv> 0x6"
abbreviation (input) ARITH_XOR :: "32 word" where "ARITH_XOR \<equiv> 0x7"
abbreviation (input) ARITH_BIC :: "32 word" where "ARITH_BIC \<equiv> 0x8"
abbreviation (input) ARITH_OR :: "32 word" where "ARITH_OR \<equiv> 0x9"
abbreviation (input) ARITH_MOVHI :: "32 word" where "ARITH_MOVHI \<equiv> 0xa"

text \<open>\<^verbatim>\<open>enum branch_opcode\<close>\<close>

abbreviation (input) BRANCH_CALL :: "32 word" where "BRANCH_CALL \<equiv> 0x0"
abbreviation (input) BRANCH_RET :: "32 word" where "BRANCH_RET \<equiv> 0x1"
abbreviation (input) BRANCH_B :: "32 word" where "BRANCH_B \<equiv> 0x4"
abbreviation (input) BRANCH_BNE :: "32 word" where "BRANCH_BNE \<equiv> 0x5"
abbreviation (input) BRANCH_BEQ :: "32 word" where "BRANCH_BEQ \<equiv> 0x6"
abbreviation (input) BRANCH_BGT :: "32 word" where "BRANCH_BGT \<equiv> 0x7"

text \<open>\<^verbatim>\<open>enum ls_opcode\<close>\<close>

abbreviation (input) LS_LDR32 :: "32 word" where "LS_LDR32 \<equiv> 0x0"
abbreviation (input) LS_LDR16 :: "32 word" where "LS_LDR16 \<equiv> 0x1"
abbreviation (input) LS_LDR8 :: "32 word" where "LS_LDR8 \<equiv> 0x2"
abbreviation (input) LS_STR32 :: "32 word" where "LS_STR32 \<equiv> 0x4"
abbreviation (input) LS_STR16 :: "32 word" where "LS_STR16 \<equiv> 0x5"
abbreviation (input) LS_STR8 :: "32 word" where "LS_STR8 \<equiv> 0x6"

subsection \<open>Instruction fields\<close>

definition instr_class :: "32 word \<Rightarrow> 32 word" where
  "instr_class instr = drop_bit 30 instr AND 0x3"

definition arith_opc :: "32 word \<Rightarrow> 32 word" where
  "arith_opc instr = drop_bit 26 instr AND 0xf"

definition branch_opc :: "32 word \<Rightarrow> 32 word" where
  "branch_opc instr = drop_bit 26 instr AND 0xf"

definition ls_opc :: "32 word \<Rightarrow> 32 word" where
  "ls_opc instr = drop_bit 26 instr AND 0xf"

definition instr_rd :: "32 word \<Rightarrow> 3 word" where
  "instr_rd instr = ucast (drop_bit 6 instr AND 0x7)"

definition instr_ra :: "32 word \<Rightarrow> 3 word" where
  "instr_ra instr = ucast (drop_bit 3 instr AND 0x7)"

definition instr_rb :: "32 word \<Rightarrow> 3 word" where
  "instr_rb instr = ucast (instr AND 0x7)"

definition instr_imm16 :: "32 word \<Rightarrow> 16 word" where
  "instr_imm16 instr = ucast (drop_bit 10 instr AND 0xffff)"

definition instr_imm24 :: "32 word \<Rightarrow> 32 word" where
  "instr_imm24 instr = instr AND 0xffffff"

subsection \<open>The test script and the processor state\<close>

text \<open>
  The Lua interpreter holds the test script. The simulator looks two globals up in it,
  \<^verbatim>\<open>data_write_hook\<close> and \<^verbatim>\<open>validate_result\<close>, and calls each one that is not nil.
  What the script does in a call is its own business; the model keeps whether each global
  is set and the calls made so far, oldest first.
\<close>

datatype lua_call =
  Data_write_hook "32 word" nat "32 word"
  | Validate_result

record lua_State =
  has_data_write_hook :: bool
  has_validate_result :: bool
  lua_calls :: "lua_call list"

text \<open>
  \<^verbatim>\<open>struct cpu\<close>. The one-bit fields \<^verbatim>\<open>z\<close> and \<^verbatim>\<open>c\<close> are \<open>z_flag\<close> and
  \<open>c_flag\<close>. The address space \<^verbatim>\<open>struct mem_map\<close> is declared outside this file: its
  type is the parameter \<open>'m\<close>.
\<close>

record 'm cpu =
  pc :: "32 word"
  next_pc :: "32 word"
  regs :: "3 word \<Rightarrow> 32 word"
  z_flag :: bool
  c_flag :: bool
  mem :: 'm
  lua_interp :: lua_State

text \<open>
  The address space's two entry points, \<^verbatim>\<open>mem_map_read\<close> and \<^verbatim>\<open>mem_map_write\<close>
  (declared in \<^verbatim>\<open>io.h\<close>), are parameters of the model. A read gives the value or fails
  (\<open>None\<close>, the nonzero return) and leaves the address space as it is; a write gives
  the address space after it or fails.
\<close>

record 'm mem_map_ops =
  mem_map_read :: "'m \<Rightarrow> 32 word \<Rightarrow> nat \<Rightarrow> 32 word option"
  mem_map_write :: "'m \<Rightarrow> 32 word \<Rightarrow> nat \<Rightarrow> 32 word \<Rightarrow> 'm option"

text \<open>
  The ways the process dies: the five \<^verbatim>\<open>die\<close> calls of the emulation, the
  \<^verbatim>\<open>assert\<close> on the instruction fetch, and a shift whose count is not below
  the width of the shifted value, which C leaves undefined.
\<close>

datatype fault =
  Invalid_arith_opcode
  | Invalid_branch_opcode
  | Invalid_ls_opcode
  | Invalid_class
  | Read_failed
  | Write_failed
  | Fetch_failed
  | Undefined_shift

type_synonym 'm emul = "(fault \<times> 'm cpu) + 'm cpu"

definition cpu_wr_reg :: "'m cpu \<Rightarrow> 3 word \<Rightarrow> 32 word \<Rightarrow> 'm cpu" where
  "cpu_wr_reg c r v = c\<lparr>regs := (regs c)(r := v)\<rparr>"

definition cpu_set_next_pc :: "'m cpu \<Rightarrow> 32 word \<Rightarrow> 'm cpu" where
  "cpu_set_next_pc c v = c\<lparr>next_pc := v\<rparr>"

text \<open>
  \<^verbatim>\<open>new_cpu\<close>: \<^verbatim>\<open>calloc\<close> zeroes the structure; the address space (RAM loaded from
  the ROM file, and the debug UART) is built by code outside this file and is passed in.
\<close>

definition new_cpu :: "'m \<Rightarrow> lua_State \<Rightarrow> 'm cpu" where
  "new_cpu m L =
     \<lparr>pc = 0, next_pc = 0, regs = (\<lambda>_. 0), z_flag = False, c_flag = False,
      mem = m, lua_interp = L\<rparr>"

subsection \<open>Arithmetic instructions\<close>

text \<open>
  \<^verbatim>\<open>emul_arithmetic\<close>. The second operand is register B when bit 9 is set, else the
  16-bit immediate, zero-extended. The cases are those of the \<^verbatim>\<open>switch\<close>, in its order;
  \<^verbatim>\<open>ARITH_ADDC\<close> and \<^verbatim>\<open>ARITH_SUBC\<close> have no case and fall to \<^verbatim>\<open>default\<close>. The
  shifts of LSL, LSR and BIC take their count from the second operand; a count of 32 or
  more is undefined in C. (In BIC the shifted value is the \<^verbatim>\<open>int\<close> 1; for the count 31
  the result is taken to be the bit pattern \<open>0x80000000\<close>, as GCC and Clang give it.)
\<close>

definition emul_arithmetic :: "'m cpu \<Rightarrow> 32 word \<Rightarrow> 'm emul" where
  "emul_arithmetic c instr =
    (let ra = instr_ra instr;
         rb = instr_rb instr;
         rd = instr_rd instr;
         imm16 = instr_imm16 instr;
         op2 = (if instr AND push_bit 9 1 \<noteq> 0 then regs c rb else ucast imm16);
         opc = arith_opc instr;
         r = (if opc = ARITH_ADD then Inr (cpu_wr_reg c rd (regs c ra + op2))
              else if opc = ARITH_SUB then Inr (cpu_wr_reg c rd (regs c ra - op2))
              else if opc = ARITH_LSL then
                (if op2 < 32 then Inr (cpu_wr_reg c rd (push_bit (unat op2) (regs c ra)))
                 else Inl (Undefined_shift, c))
              else if opc = ARITH_LSR then
                (if op2 < 32 then Inr (cpu_wr_reg c rd (drop_bit (unat op2) (regs c ra)))
                 else Inl (Undefined_shift, c))
              else if opc = ARITH_AND then Inr (cpu_wr_reg c rd (regs c ra AND op2))
              else if opc = ARITH_XOR then Inr (cpu_wr_reg c rd (regs c ra XOR op2))
              else if opc = ARITH_BIC then
                (if op2 < 32 then
                   Inr (cpu_wr_reg c rd (regs c ra AND NOT (push_bit (unat op2) 1)))
                 else Inl (Undefined_shift, c))
              else if opc = ARITH_OR then Inr (cpu_wr_reg c rd (regs c ra OR op2))
              else if opc = ARITH_MOVHI then Inr (cpu_wr_reg c rd (push_bit 16 op2))
              else Inl (Invalid_arith_opcode, c))
     in case r of
          Inl e \<Rightarrow> Inl e
        | Inr c' \<Rightarrow>
            Inr (if opc \<noteq> ARITH_MOVHI then c'\<lparr>z_flag := (regs c' rd = 0)\<rparr> else c'))"

subsection \<open>Branches\<close>

text \<open>
  \<^verbatim>\<open>emul_branch\<close>. The immediate is sign-extended from 24 bits by a left shift and an
  arithmetic right shift of the \<^verbatim>\<open>int32_t\<close> (two's complement, as the compilers this
  builds with define them). With bit 25 set the target is \<^verbatim>\<open>rb\<close>, the register number
  decoded from the instruction.
\<close>

definition emul_branch :: "'m cpu \<Rightarrow> 32 word \<Rightarrow> 'm emul" where
  "emul_branch c instr =
    (let rb = instr_rb instr;
         imm24 = instr_imm24 instr;
         imm24 = push_bit 8 imm24;
         imm24 = signed_drop_bit 8 imm24;
         target = (if instr AND push_bit 25 1 \<noteq> 0 then ucast rb
                   else pc c + push_bit 2 imm24);
         opc = branch_opc instr
     in if opc = BRANCH_B then Inr (cpu_set_next_pc c target)
        else if opc = BRANCH_BEQ then
          Inr (if z_flag c then cpu_set_next_pc c target else c)
        else Inl (Invalid_branch_opcode, c))"

subsection \<open>The script's hooks\<close>

text \<open>
  \<^verbatim>\<open>validate_result\<close>: the script's global of that name is called when it is not nil.
\<close>

definition validate_result :: "'m cpu \<Rightarrow> 'm cpu" where
  "validate_result c =
    (let L = lua_interp c
     in if has_validate_result L
        then c\<lparr>lua_interp := L\<lparr>lua_calls := lua_calls L @ [Validate_result]\<rparr>\<rparr>
        else c)"

text \<open>
  \<^verbatim>\<open>cpu_mem_map_write\<close>: first the script's \<^verbatim>\<open>data_write_hook\<close>, when it is not nil,
  is called with the address, the width and the value; then \<^verbatim>\<open>mem_map_write\<close> runs
  and its return value is returned (\<open>True\<close> stands for a nonzero one).
\<close>

definition cpu_mem_map_write ::
  "'m mem_map_ops \<Rightarrow> 'm cpu \<Rightarrow> 32 word \<Rightarrow> nat \<Rightarrow> 32 word \<Rightarrow> bool \<times> 'm cpu" where
  "cpu_mem_map_write io c addr nr_bits val =
    (let L = lua_interp c;
         c1 = (if has_data_write_hook L
               then c\<lparr>lua_interp :=
                        L\<lparr>lua_calls := lua_calls L @ [Data_write_hook addr nr_bits val]\<rparr>\<rparr>
               else c)
     in case mem_map_write io (mem c1) addr nr_bits val of
          None \<Rightarrow> (True, c1)
        | Some m \<Rightarrow> (False, c1\<lparr>mem := m\<rparr>))"

subsection \<open>Loads and stores\<close>

text \<open>
  \<^verbatim>\<open>emul_ldr_str\<close>. The immediate is read into an \<^verbatim>\<open>int32_t\<close> (zero-extended from
  the \<^verbatim>\<open>uint16_t\<close>); with bit 9 set it is sign-extended from 16 bits by a shift pair
  and added to the program counter, otherwise it is added as it is to register A.
\<close>

definition emul_ldr_str :: "'m mem_map_ops \<Rightarrow> 'm cpu \<Rightarrow> 32 word \<Rightarrow> 'm emul" where
  "emul_ldr_str io c instr =
    (let imm16 = (ucast (instr_imm16 instr) :: 32 word);
         ra = instr_ra instr;
         rb = instr_rb instr;
         rd = instr_rd instr;
         addr = (if instr AND push_bit 9 1 \<noteq> 0
                 then (let imm16 = push_bit 16 imm16;
                           imm16 = signed_drop_bit 16 imm16
                       in pc c + imm16)
                 else regs c ra + imm16);
         opc = ls_opc instr
     in if opc = LS_LDR8 then
          (case mem_map_read io (mem c) addr 8 of
             None \<Rightarrow> Inl (Read_failed, c)
           | Some v \<Rightarrow> Inr (cpu_wr_reg c rd (v AND 0xff)))
        else if opc = LS_STR8 then
          (let v = regs c rb AND 0xff;
               (err, c') = cpu_mem_map_write io c addr 8 v
           in if err then Inl (Write_failed, c') else Inr c')
        else Inl (Invalid_ls_opcode, c))"

subsection \<open>One instruction, one cycle\<close>

definition emul_insn :: "'m mem_map_ops \<Rightarrow> 'm cpu \<Rightarrow> 32 word \<Rightarrow> 'm emul" where
  "emul_insn io c instr =
    (let cls = instr_class instr
     in if cls = INSTR_ARITHMETIC then emul_arithmetic c instr
        else if cls = INSTR_BRANCH then emul_branch c instr
        else if cls = INSTR_LDR_STR then emul_ldr_str io c instr
        else Inl (Invalid_class, c))"

text \<open>
  \<^verbatim>\<open>cpu_cycle\<close> returns the status word together with the state it leaves. The
  assignment to \<^verbatim>\<open>next_pc\<close> comes before the fetch and before the test for the two
  sentinel words.
\<close>

definition cpu_cycle ::
  "'m mem_map_ops \<Rightarrow> 'm cpu \<Rightarrow> (fault \<times> 'm cpu) + (32 word \<times> 'm cpu)" where
  "cpu_cycle io c =
    (let c1 = c\<lparr>next_pc := pc c + 4\<rparr>
     in case mem_map_read io (mem c1) (pc c1) 32 of
          None \<Rightarrow> Inl (Fetch_failed, c1)
        | Some instr \<Rightarrow>
            if instr = SIM_SUCCESS \<or> instr = SIM_FAIL then Inr (instr, c1)
            else (case emul_insn io c1 instr of
                    Inl e \<Rightarrow> Inl e
                  | Inr c2 \<Rightarrow> Inr (SIM_CONTINUE, c2\<lparr>pc := next_pc c2\<rparr>)))"

subsection \<open>The driver\<close>

text \<open>
  The loop of \<^verbatim>\<open>main\<close>, \<^verbatim>\<open>do err = cpu_cycle(c); while (err == 0);\<close>. It runs for as
  long as the program does: a run that never ends is \<open>None\<close>.
\<close>

partial_function (option) cycle_loop ::
  "'m mem_map_ops \<Rightarrow> 'm cpu \<Rightarrow> ((fault \<times> 'm cpu) + (32 word \<times> 'm cpu)) option" where
  "cycle_loop io c =
    (case cpu_cycle io c of
       Inl e \<Rightarrow> Some (Inl e)
     | Inr (err, c') \<Rightarrow> if err = 0 then cycle_loop io c' else Some (Inr (err, c')))"

abbreviation (input) EXIT_SUCCESS :: int where "EXIT_SUCCESS \<equiv> 0"
abbreviation (input) EXIT_FAILURE :: int where "EXIT_FAILURE \<equiv> 1"

text \<open>
  \<^verbatim>\<open>main\<close>, from \<^verbatim>\<open>new_cpu\<close> on: the loop, the line printed after it, the call of
  \<^verbatim>\<open>validate_result\<close> on success, and the exit status. The result is the printed line,
  the exit status and the final state; the banner printed before the loop is left out.
  (\<^verbatim>\<open>err\<close> is an \<^verbatim>\<open>int\<close>; it equals \<^verbatim>\<open>SIM_SUCCESS\<close> exactly when the status
  word returned was \<^verbatim>\<open>0xffffffff\<close>.)
\<close>

definition sim_main ::
  "'m mem_map_ops \<Rightarrow> 'm \<Rightarrow> lua_State \<Rightarrow> ((fault \<times> 'm cpu) + (string \<times> int \<times> 'm cpu)) option" where
  "sim_main io m L =
    (case cycle_loop io (new_cpu m L) of
       None \<Rightarrow> None
     | Some (Inl e) \<Rightarrow> Some (Inl e)
     | Some (Inr (err, c)) \<Rightarrow>
         Some (Inr (if err = SIM_SUCCESS then ''[SUCCESS]'' else ''[FAIL]'',
                    if err = SIM_SUCCESS then EXIT_SUCCESS else EXIT_FAILURE,
                    if err = SIM_SUCCESS then validate_result c else c)))"

section \<open>The debugger protocol (debugger/protocol.h)\<close>

text \<open>
  An \<^verbatim>\<open>enum\<close> declaration is a list of names, each with or without a value. C numbers
  them: an enumerator with a value has it, one without has the previous one's value plus
  one, and the first has 0.
\<close>

fun enum_values :: "int \<Rightarrow> (string \<times> int option) list \<Rightarrow> (string \<times> int) list" where
  "enum_values n [] = []"
| "enum_values n ((name, None) # es) = (name, n) # enum_values (n + 1) es"
| "enum_values n ((name, Some v) # es) = (name, v) # enum_values (v + 1) es"

definition dbg_cmd :: "(string \<times> int) list" where
  "dbg_cmd = enum_values 0
    [(''CMD_STOP'', None),
     (''CMD_RUN'', None),
     (''CMD_STEP'', None),
     (''CMD_READ_REG'', None),
     (''CMD_WRITE_REG'', None),
     (''CMD_RMEM32'', None),
     (''CMD_RMEM16'', None),
     (''CMD_RMEM8'', None),
     (''CMD_WMEM32'', None),
     (''CMD_WMEM16'', None),
     (''CMD_WMEM8'', None),
     (''CMD_RESET'', None),
     (''CMD_CACHE_SYNC'', None),
     (''CMD_CPUID'', None),
     (''CMD_GET_EXEC_STATUS'', None),
     (''CMD_START_TRACE'', Some (- 2)),
     (''CMD_SIM_TERM'', Some (- 1))]"

definition exec_status :: "(string \<times> int) list" where
  "exec_status = enum_values 0
    [(''EXEC_STATUS_RUNNING'', Some (push_bit 0 1)),
     (''EXEC_STATUS_STOPPED_ON_BKPT'', Some (push_bit 1 1))]"

section \<open>A small address space to run programs on\<close>

text \<open>
  An address space for running the model on concrete programs: a finite set of mapped
  addresses, each holding one value, whatever the width asked for; an access to an address
  that is not mapped fails.
\<close>

definition cell_ops :: "(32 word \<Rightarrow> 32 word option) mem_map_ops" where
  "cell_ops =
    \<lparr>mem_map_read = (\<lambda>m addr nr_bits. m addr),
     mem_map_write = (\<lambda>m addr nr_bits v.
        if m addr = None then None else Some (m(addr \<mapsto> v)))\<rparr>"

definition no_script :: lua_State where
  "no_script = \<lparr>has_data_write_hook = False, has_validate_result = False, lua_calls = []\<rparr>"

definition test_script :: lua_State where
  "test_script = \<lparr>has_data_write_hook = True, has_validate_result = True, lua_calls = []\<rparr>"

definition demo_rom :: "32 word \<Rightarrow> 32 word option" where
  \<comment> \<open>\<^verbatim>\<open>ADD R1, R1, #10; ADD R0, R1, #5; STR8 R0, [R2, #0x100]; SUCCESS\<close>, and a cell at \<open>0x100\<close>\<close>
  "demo_rom =
     [0 \<mapsto> 0x00002848, 4 \<mapsto> 0x00001408, 8 \<mapsto> 0x98040010, 12 \<mapsto> 0xffffffff, 0x100 \<mapsto> 0]"

definition demo_final :: "(32 word \<Rightarrow> 32 word option) cpu" where
  "demo_final =
     \<lparr>pc = 12, next_pc = 16, regs = (\<lambda>_. 0)(1 := 10, 0 := 15), z_flag = False, c_flag = False,
      mem = demo_rom(0x100 \<mapsto> 15),
      lua_interp = test_script\<lparr>lua_calls := [Data_write_hook 0x100 8 15]\<rparr>\<rparr>"


definition fail_rom :: "32 word \<Rightarrow> 32 word option" where
  \<comment> \<open>the FAIL word alone\<close>
  "fail_rom = [0 \<mapsto> 0xfffffffe]"



definition ldr_rom :: "32 word \<Rightarrow> 32 word option" where
  "ldr_rom = [7 \<mapsto> 0x1aa, 0xffff \<mapsto> 0x2bb]"

definition indirect_rom :: "32 word \<Rightarrow> 32 word option" where
  \<comment> \<open>\<^verbatim>\<open>ADD R1, R1, #0x100; B R1\<close>, and the SUCCESS word at \<open>0x100\<close>\<close>
  "indirect_rom = [0 \<mapsto> 0x00040048, 4 \<mapsto> 0x52000001, 0x100 \<mapsto> 0xffffffff]"

definition branch_cpu :: "unit cpu" where
  \<comment> \<open>at address 8, with \<open>0x100\<close> in R1\<close>
  "branch_cpu = cpu_wr_reg (new_cpu () no_script\<lparr>pc := 8\<rparr>) 1 0x100"

section \<open>Notions of the specification\<close>

text \<open>The state a result carries, whether the process died or not.\<close>

definition emul_cpu :: "'m emul \<Rightarrow> 'm cpu" where
  "emul_cpu r = (case r of Inl (f, c) \<Rightarrow> c | Inr c \<Rightarrow> c)"

definition cycle_cpu :: "(fault \<times> 'm cpu) + (32 word \<times> 'm cpu) \<Rightarrow> 'm cpu" where
  "cycle_cpu r = (case r of Inl (f, c) \<Rightarrow> c | Inr (st, c) \<Rightarrow> c)"


text \<open>
  The effective address of a load or store as the specification words it: the program
  counter plus the 16-bit immediate read as a signed number when bit 9 is set, else register
  operand A plus the immediate read as an unsigned number.
\<close>

definition effective_address :: "'m cpu \<Rightarrow> 32 word \<Rightarrow> 32 word" where
  "effective_address c instr =
     (if bit instr 9 then pc c + word_of_int (sint (instr_imm16 instr))
      else regs c (instr_ra instr) + word_of_int (uint (instr_imm16 instr)))"

section \<open>Properties\<close>

subsection \<open>Sign extension by a shift pair\<close>

lemma instr_imm24_take_bit: "instr_imm24 instr = take_bit 24 instr"
proof -
  have "(0xffffff :: 32 word) = mask 24"
    by (simp add: mask_eq_exp_minus_1)
  then show ?thesis
    by (simp only: instr_imm24_def take_bit_eq_mask)
qed

lemma shift_pair_imm24:
  "signed_drop_bit 8 (push_bit 8 (instr_imm24 instr)) = (scast (ucast instr :: 24 word) :: 32 word)"
  unfolding instr_imm24_take_bit
  by (rule bit_word_eqI) (auto simp add: bit_simps bit_signed_drop_bit_iff)

lemma shift_pair_imm16:
  "signed_drop_bit 16 (push_bit 16 (ucast (x :: 16 word) :: 32 word)) = (scast x :: 32 word)"
  by (rule bit_word_eqI) (auto simp add: bit_simps bit_signed_drop_bit_iff)

lemma times_four_scast:
  "push_bit 2 (scast (w :: 24 word) :: 32 word) = word_of_int (4 * sint w)"
  by (simp add: push_bit_eq_mult)

subsection \<open>Branches\<close>

text \<open>
  C6. A taken branch (B, or BEQ with Z set) whose bit 25 is clear sets Next-PC to the
  program counter plus four times the 24-bit immediate read as a signed number; with the
  immediate field \<open>0xFFFFFF\<close> that is PC - 4.
\<close>

theorem pc_relative_branch_target:
  assumes "instr AND push_bit 25 1 = 0"
    and "branch_opc instr = BRANCH_B \<or> (branch_opc instr = BRANCH_BEQ \<and> z_flag c)"
  shows "emul_branch c instr =
           Inr (c\<lparr>next_pc := pc c + word_of_int (4 * sint (ucast instr :: 24 word))\<rparr>)
         \<and> (instr_imm24 instr = 0xffffff \<longrightarrow>
              emul_branch c instr = Inr (c\<lparr>next_pc := pc c - 4\<rparr>))"
proof -
  let ?t = "pc c + push_bit 2 (signed_drop_bit 8 (push_bit 8 (instr_imm24 instr)))"
  have e: "emul_branch c instr = Inr (c\<lparr>next_pc := ?t\<rparr>)"
    using assms by (auto simp add: emul_branch_def Let_def cpu_set_next_pc_def)
  have t: "?t = pc c + word_of_int (4 * sint (ucast instr :: 24 word))"
    by (simp only: shift_pair_imm24 times_four_scast)
  have c4: "push_bit 2 (signed_drop_bit 8 (push_bit 8 (0xffffff :: 32 word))) = - 4"
    by (simp add: mask_eq_exp_minus_1)
  have m: "?t = pc c - 4" if "instr_imm24 instr = 0xffffff"
    by (simp only: that c4) simp
  show ?thesis
  proof (intro conjI impI)
    show "emul_branch c instr =
           Inr (c\<lparr>next_pc := pc c + word_of_int (4 * sint (ucast instr :: 24 word))\<rparr>)"
      by (simp only: e t)
    show "emul_branch c instr = Inr (c\<lparr>next_pc := pc c - 4\<rparr>)"
      if "instr_imm24 instr = 0xffffff"
      by (simp only: e m [OF that])
  qed
qed

text \<open>The branch \<open>0x50ffffff\<close> (B, immediate \<open>0xFFFFFF\<close>) at address 8 goes to 4.\<close>

theorem pc_relative_branch_target_witness:
  "(0x50ffffff :: 32 word) AND push_bit 25 1 = 0
   \<and> branch_opc 0x50ffffff = BRANCH_B
   \<and> instr_imm24 0x50ffffff = 0xffffff
   \<and> emul_branch (new_cpu () no_script\<lparr>pc := 8\<rparr>) 0x50ffffff
       = Inr (new_cpu () no_script\<lparr>pc := 8, next_pc := 4\<rparr>)"
  using pc_relative_branch_target [of "0x50ffffff" "new_cpu () no_script\<lparr>pc := 8\<rparr>"]
  by (simp add: branch_opc_def instr_imm24_def)

text \<open>
  C1. The branch \<open>0x52000001\<close> is B with bit 25 set and register operand B = R1. With
  \<open>0x100\<close> in R1, \<^verbatim>\<open>emul_branch\<close> sets Next-PC to 1, the number of the register, not to
  \<open>0x100\<close>, its contents. So the program \<^verbatim>\<open>ADD R1, R1, #0x100; B R1\<close> does not reach the
  SUCCESS word at \<open>0x100\<close>: it goes to address 1, where the fetch fails.
\<close>

theorem branch_register_indirect_takes_index:
  "(0x52000001 :: 32 word) AND push_bit 25 1 \<noteq> 0
   \<and> instr_class 0x52000001 = INSTR_BRANCH
   \<and> branch_opc 0x52000001 = BRANCH_B
   \<and> instr_rb 0x52000001 = 1
   \<and> regs branch_cpu 1 = 0x100
   \<and> emul_branch branch_cpu 0x52000001 = Inr (branch_cpu\<lparr>next_pc := 1\<rparr>)
   \<and> cycle_loop cell_ops (new_cpu indirect_rom no_script)
       = Some (Inl (Fetch_failed,
           (cpu_wr_reg (new_cpu indirect_rom no_script) 1 0x100)\<lparr>pc := 1, next_pc := 5\<rparr>))"
  by (simp add: cycle_loop.simps cpu_cycle_def emul_insn_def emul_arithmetic_def emul_branch_def
      instr_class_def arith_opc_def branch_opc_def instr_rd_def instr_ra_def instr_rb_def
      instr_imm16_def instr_imm24_def branch_cpu_def cpu_wr_reg_def cpu_set_next_pc_def
      new_cpu_def cell_ops_def indirect_rom_def Let_def)

subsection \<open>Unfolding and running\<close>

lemmas decode_defs =
  instr_class_def arith_opc_def branch_opc_def ls_opc_def instr_rd_def instr_ra_def
  instr_rb_def instr_imm16_def instr_imm24_def

lemmas exec_defs =
  cpu_cycle_def emul_insn_def emul_arithmetic_def emul_branch_def emul_ldr_str_def
  cpu_mem_map_write_def cpu_wr_reg_def cpu_set_next_pc_def validate_result_def new_cpu_def

lemma mode_bit: "(instr AND push_bit n 1 \<noteq> 0) = bit instr n"
  for instr :: "32 word"
  by (simp add: bit_iff_and_push_bit_not_eq_0)


text \<open>The demonstration program runs to the SUCCESS word; the FAIL word alone fails.\<close>

lemma demo_run:
  "cycle_loop cell_ops (new_cpu demo_rom test_script) = Some (Inr (SIM_SUCCESS, demo_final))"
  by (simp add: cycle_loop.simps exec_defs decode_defs cell_ops_def demo_rom_def test_script_def
      demo_final_def Let_def)

lemma fail_run:
  "cycle_loop cell_ops (new_cpu fail_rom test_script)
     = Some (Inr (SIM_FAIL, (new_cpu fail_rom test_script)\<lparr>next_pc := 4\<rparr>))"
  by (simp add: cycle_loop.simps exec_defs cell_ops_def fail_rom_def Let_def)

subsection \<open>What each emulation function leaves alone\<close>

lemma emul_arithmetic_frame:
  "pc (emul_cpu (emul_arithmetic c instr)) = pc c"
  "next_pc (emul_cpu (emul_arithmetic c instr)) = next_pc c"
  "c_flag (emul_cpu (emul_arithmetic c instr)) = c_flag c"
  "mem (emul_cpu (emul_arithmetic c instr)) = mem c"
  "lua_interp (emul_cpu (emul_arithmetic c instr)) = lua_interp c"
  by (simp_all add: emul_arithmetic_def emul_cpu_def Let_def cpu_wr_reg_def)

lemma emul_branch_frame:
  "pc (emul_cpu (emul_branch c instr)) = pc c"
  "regs (emul_cpu (emul_branch c instr)) = regs c"
  "z_flag (emul_cpu (emul_branch c instr)) = z_flag c"
  "c_flag (emul_cpu (emul_branch c instr)) = c_flag c"
  "mem (emul_cpu (emul_branch c instr)) = mem c"
  "lua_interp (emul_cpu (emul_branch c instr)) = lua_interp c"
  by (simp_all add: emul_branch_def emul_cpu_def Let_def cpu_set_next_pc_def)

text \<open>The load/store emulation, with the address in the specification's words.\<close>

lemma emul_ldr_str_eq:
  "emul_ldr_str io c instr =
     (if ls_opc instr = LS_LDR8 then
        (case mem_map_read io (mem c) (effective_address c instr) 8 of
           None \<Rightarrow> Inl (Read_failed, c)
         | Some v \<Rightarrow> Inr (cpu_wr_reg c (instr_rd instr) (v AND 0xff)))
      else if ls_opc instr = LS_STR8 then
        (case cpu_mem_map_write io c (effective_address c instr) 8
                (regs c (instr_rb instr) AND 0xff) of
           (err, c') \<Rightarrow> if err then Inl (Write_failed, c') else Inr c')
      else Inl (Invalid_ls_opcode, c))"
proof -
  have a: "signed_drop_bit 16 (push_bit 16 (ucast (instr_imm16 instr) :: 32 word))
             = word_of_int (sint (instr_imm16 instr))"
    by (simp only: shift_pair_imm16 scast_eq)
  have b: "(ucast (instr_imm16 instr) :: 32 word) = word_of_int (uint (instr_imm16 instr))"
    by simp
  show ?thesis
    unfolding emul_ldr_str_def effective_address_def Let_def mode_bit a
    by (simp only: b)
qed

lemma emul_ldr_str_frame:
  "pc (emul_cpu (emul_ldr_str io c instr)) = pc c"
  "next_pc (emul_cpu (emul_ldr_str io c instr)) = next_pc c"
  "z_flag (emul_cpu (emul_ldr_str io c instr)) = z_flag c"
  "c_flag (emul_cpu (emul_ldr_str io c instr)) = c_flag c"
  by (simp_all add: emul_ldr_str_eq emul_cpu_def cpu_mem_map_write_def Let_def cpu_wr_reg_def
      split: option.split)

lemma emul_insn_c_flag: "c_flag (emul_cpu (emul_insn io c instr)) = c_flag c"
  by (simp add: emul_insn_def Let_def emul_arithmetic_frame emul_branch_frame emul_ldr_str_frame)
    (simp add: emul_cpu_def)

lemma cpu_cycle_c_flag: "c_flag (cycle_cpu (cpu_cycle io c)) = c_flag c"
proof (cases "mem_map_read io (mem c) (pc c) 32")
  case None
  then show ?thesis
    by (simp add: cpu_cycle_def cycle_cpu_def)
next
  case (Some instr)
  have "c_flag (emul_cpu (emul_insn io (c\<lparr>next_pc := pc c + 4\<rparr>) instr)) = c_flag c"
    by (simp add: emul_insn_c_flag)
  then show ?thesis
    using Some
    by (auto simp add: cpu_cycle_def cycle_cpu_def emul_cpu_def Let_def split: sum.splits)
qed

subsection \<open>The loop\<close>

text \<open>
  A property of the state that every cycle keeps holds of the state the loop ends in,
  whichever way it ends.
\<close>

lemma cycle_loop_invariant:
  assumes run: "cycle_loop io c = Some r"
    and init: "Q c"
    and step: "\<forall>c. Q c \<longrightarrow> Q (cycle_cpu (cpu_cycle io c))"
  shows "Q (cycle_cpu r)"
proof -
  have "(\<forall>c. Q c \<longrightarrow> Q (cycle_cpu (cpu_cycle io c))) \<longrightarrow> Q c \<longrightarrow> Q (cycle_cpu r)"
  proof (rule cycle_loop.raw_induct
      [where P = "\<lambda>io c r. (\<forall>c. Q c \<longrightarrow> Q (cycle_cpu (cpu_cycle io c)))
                              \<longrightarrow> Q c \<longrightarrow> Q (cycle_cpu r)",
        OF _ run])
    fix loop io c r
    assume IH: "\<And>io c r. loop io c = Some r \<Longrightarrow>
        (\<forall>c. Q c \<longrightarrow> Q (cycle_cpu (cpu_cycle io c))) \<longrightarrow> Q c \<longrightarrow> Q (cycle_cpu r)"
      and body: "(case cpu_cycle io c of
                    Inl e \<Rightarrow> Some (Inl e)
                  | Inr (err, c') \<Rightarrow>
                      if err = 0 then loop io c' else Some (Inr (err, c'))) = Some r"
    show "(\<forall>c. Q c \<longrightarrow> Q (cycle_cpu (cpu_cycle io c))) \<longrightarrow> Q c \<longrightarrow> Q (cycle_cpu r)"
    proof (intro impI)
      assume st: "\<forall>c. Q c \<longrightarrow> Q (cycle_cpu (cpu_cycle io c))" and "Q c"
      then have n: "Q (cycle_cpu (cpu_cycle io c))"
        by simp
      show "Q (cycle_cpu r)"
      proof (cases "cpu_cycle io c")
        case (Inl e)
        with body have "r = cpu_cycle io c"
          by simp
        with n show ?thesis
          by (simp only:)
      next
        case (Inr p)
        obtain err c' where pe: "p = (err, c')"
          by (cases p)
        show ?thesis
        proof (cases "err = 0")
          case True
          with body Inr pe have l: "loop io c' = Some r"
            by simp
          have "Q c'"
            using n Inr pe by (simp add: cycle_cpu_def)
          with IH [OF l] st show ?thesis
            by simp
        next
          case False
          with body Inr pe have "r = cpu_cycle io c"
            by simp
          with n show ?thesis
            by (simp only:)
        qed
      qed
    qed
  qed
  with init step show ?thesis
    by simp
qed

lemma cpu_cycle_status:
  "cpu_cycle io c = Inr (err, c') \<Longrightarrow>
     err = SIM_CONTINUE \<or> err = SIM_SUCCESS \<or> err = SIM_FAIL"
  by (auto simp add: cpu_cycle_def Let_def split: option.splits sum.splits if_splits)

text \<open>The loop ends on a sentinel word only (or dies).\<close>

lemma cycle_loop_status:
  fixes io :: "'m mem_map_ops"
  assumes run: "cycle_loop io c = Some (Inr (err, c'))"
  shows "err = SIM_SUCCESS \<or> err = SIM_FAIL"
proof -
  let ?T = "\<lambda>r :: (fault \<times> 'm cpu) + (32 word \<times> 'm cpu).
              \<forall>err c'. r = Inr (err, c') \<longrightarrow> err = SIM_SUCCESS \<or> err = SIM_FAIL"
  have "?T (Inr (err, c'))"
  proof (rule cycle_loop.raw_induct
      [where P = "\<lambda>(io :: 'm mem_map_ops) (c :: 'm cpu) r. ?T r", OF _ run])
    fix loop :: "'m mem_map_ops \<Rightarrow> 'm cpu
                   \<Rightarrow> ((fault \<times> 'm cpu) + (32 word \<times> 'm cpu)) option"
    fix io c r
    assume IH: "\<And>io c r. loop io c = Some r \<Longrightarrow> ?T r"
      and body: "(case cpu_cycle io c of
                    Inl e \<Rightarrow> Some (Inl e)
                  | Inr (err, c') \<Rightarrow>
                      if err = 0 then loop io c' else Some (Inr (err, c'))) = Some r"
    show "?T r"
    proof (cases "cpu_cycle io c")
      case (Inl e)
      with body show ?thesis
        by auto
    next
      case (Inr p)
      obtain e c2 where pe: "p = (e, c2)"
        by (cases p)
      show ?thesis
      proof (cases "e = 0")
        case True
        with body Inr pe have "loop io c2 = Some r"
          by simp
        then show ?thesis
          by (rule IH)
      next
        case False
        with body Inr pe have "r = Inr (e, c2)"
          by simp
        with False cpu_cycle_status [of io c e c2] Inr pe show ?thesis
          by auto
      qed
    qed
  qed
  then show ?thesis
    by simp
qed

subsection \<open>The carry flag\<close>

text \<open>
  C10. No cycle writes the C flag: whatever the instruction word and the state, and whether
  the cycle returns or dies, the C flag after it is the C flag before it. So a run from the
  freshly made processor, however it ends, ends with C clear.
\<close>

theorem carry_flag_never_written:
  "c_flag (cycle_cpu (cpu_cycle io c)) = c_flag c
   \<and> (\<forall>r. cycle_loop io (new_cpu m L) = Some r \<longrightarrow> \<not> c_flag (cycle_cpu r))"
proof (intro conjI allI impI)
  show "c_flag (cycle_cpu (cpu_cycle io c)) = c_flag c"
    by (rule cpu_cycle_c_flag)
  fix r
  assume "cycle_loop io (new_cpu m L) = Some r"
  then show "\<not> c_flag (cycle_cpu r)"
    by (rule cycle_loop_invariant) (simp_all add: cpu_cycle_c_flag new_cpu_def)
qed

theorem carry_flag_never_written_witness:
  "cycle_loop cell_ops (new_cpu demo_rom test_script) = Some (Inr (SIM_SUCCESS, demo_final))
   \<and> \<not> c_flag demo_final"
  using carry_flag_never_written [of cell_ops "new_cpu demo_rom test_script" demo_rom test_script]
  by (simp add: demo_run cycle_cpu_def)

subsection \<open>Arithmetic\<close>



subsection \<open>The sentinel words\<close>

text \<open>
  C3. When the word fetched at the program counter is the SUCCESS or the FAIL word, the
  cycle returns that word, the loop ends with it, and the program counter, the eight
  registers, the two flags and the address space are what they were before the cycle (so is
  the script's state). Of the whole state only Next-PC has changed, to PC + 4.
\<close>

theorem sentinel_halts:
  assumes "mem_map_read io (mem c) (pc c) 32 = Some w"
    and "w = SIM_SUCCESS \<or> w = SIM_FAIL"
  shows "cpu_cycle io c = Inr (w, c\<lparr>next_pc := pc c + 4\<rparr>)
       \<and> cycle_loop io c = Some (Inr (w, c\<lparr>next_pc := pc c + 4\<rparr>))
       \<and> pc (cycle_cpu (cpu_cycle io c)) = pc c
       \<and> regs (cycle_cpu (cpu_cycle io c)) = regs c
       \<and> z_flag (cycle_cpu (cpu_cycle io c)) = z_flag c
       \<and> c_flag (cycle_cpu (cpu_cycle io c)) = c_flag c
       \<and> mem (cycle_cpu (cpu_cycle io c)) = mem c
       \<and> lua_interp (cycle_cpu (cpu_cycle io c)) = lua_interp c"
proof -
  have a: "cpu_cycle io c = Inr (w, c\<lparr>next_pc := pc c + 4\<rparr>)"
    using assms by (auto simp add: cpu_cycle_def Let_def)
  have "w \<noteq> 0"
    using assms(2) by auto
  then have b: "cycle_loop io c = Some (Inr (w, c\<lparr>next_pc := pc c + 4\<rparr>))"
    by (subst cycle_loop.simps) (simp add: a)
  show ?thesis
    using a b by (simp add: cycle_cpu_def)
qed

text \<open>The program of the FAIL word alone; and the last cycle of the demonstration program.\<close>

theorem sentinel_halts_witness:
  "mem_map_read cell_ops (mem (new_cpu fail_rom test_script)) (pc (new_cpu fail_rom test_script)) 32
     = Some SIM_FAIL
   \<and> cpu_cycle cell_ops (new_cpu fail_rom test_script)
       = Inr (SIM_FAIL, (new_cpu fail_rom test_script)\<lparr>next_pc := 4\<rparr>)
   \<and> cycle_loop cell_ops (new_cpu fail_rom test_script)
       = Some (Inr (SIM_FAIL, (new_cpu fail_rom test_script)\<lparr>next_pc := 4\<rparr>))
   \<and> mem_map_read cell_ops (mem demo_final) (pc demo_final) 32 = Some SIM_SUCCESS
   \<and> cycle_loop cell_ops demo_final = Some (Inr (SIM_SUCCESS, demo_final))"
  using sentinel_halts [of cell_ops "new_cpu fail_rom test_script" SIM_FAIL]
    sentinel_halts [of cell_ops demo_final SIM_SUCCESS]
  by (simp add: cell_ops_def fail_rom_def demo_rom_def demo_final_def new_cpu_def)

subsection \<open>Loads and stores\<close>

text \<open>
  C5. An 8-bit load reads, and an 8-bit store writes, at the effective address of the
  specification: PC plus the sign-extended 16-bit immediate when bit 9 is set, else register
  operand A plus the zero-extended immediate.
\<close>

theorem load_store_effective_address:
  assumes "ls_opc instr = LS_LDR8 \<or> ls_opc instr = LS_STR8"
  shows "emul_ldr_str io c instr =
     (if ls_opc instr = LS_LDR8 then
        (case mem_map_read io (mem c) (effective_address c instr) 8 of
           None \<Rightarrow> Inl (Read_failed, c)
         | Some v \<Rightarrow> Inr (cpu_wr_reg c (instr_rd instr) (v AND 0xff)))
      else
        (case cpu_mem_map_write io c (effective_address c instr) 8
                (regs c (instr_rb instr) AND 0xff) of
           (err, c') \<Rightarrow> if err then Inl (Write_failed, c') else Inr c'))"
  using assms by (auto simp add: emul_ldr_str_eq)

text \<open>
  With the immediate \<open>0xFFFF\<close>: \<open>0x8bfffe40\<close> (\<^verbatim>\<open>LDR8 R1, [PC, #0xffff]\<close>) at address
  8 loads from 7; \<open>0x8bfffc40\<close> (\<^verbatim>\<open>LDR8 R1, [R0, #0xffff]\<close>) with 0 in R0 loads from
  \<open>0xFFFF\<close>.
\<close>

theorem load_store_effective_address_witness:
  "ls_opc 0x8bfffe40 = LS_LDR8
   \<and> bit (0x8bfffe40 :: 32 word) 9
   \<and> instr_imm16 0x8bfffe40 = 0xffff
   \<and> effective_address (new_cpu ldr_rom no_script\<lparr>pc := 8\<rparr>) 0x8bfffe40 = 7
   \<and> emul_ldr_str cell_ops (new_cpu ldr_rom no_script\<lparr>pc := 8\<rparr>) 0x8bfffe40
        = Inr (cpu_wr_reg (new_cpu ldr_rom no_script\<lparr>pc := 8\<rparr>) 1 0xaa)
   \<and> ls_opc 0x8bfffc40 = LS_LDR8
   \<and> \<not> bit (0x8bfffc40 :: 32 word) 9
   \<and> instr_imm16 0x8bfffc40 = 0xffff
   \<and> effective_address (new_cpu ldr_rom no_script\<lparr>pc := 8\<rparr>) 0x8bfffc40 = 0xffff
   \<and> emul_ldr_str cell_ops (new_cpu ldr_rom no_script\<lparr>pc := 8\<rparr>) 0x8bfffc40
        = Inr (cpu_wr_reg (new_cpu ldr_rom no_script\<lparr>pc := 8\<rparr>) 1 0xbb)"
  using
    load_store_effective_address [of "0x8bfffe40" cell_ops "new_cpu ldr_rom no_script\<lparr>pc := 8\<rparr>"]
    load_store_effective_address [of "0x8bfffc40" cell_ops "new_cpu ldr_rom no_script\<lparr>pc := 8\<rparr>"]
  by (simp add: decode_defs effective_address_def cell_ops_def ldr_rom_def new_cpu_def
      cpu_wr_reg_def)

subsection \<open>The arithmetic opcodes\<close>










subsection \<open>The store observer\<close>

lemma emul_insn_store:
  assumes "instr_class instr = INSTR_LDR_STR" and "ls_opc instr = LS_STR8"
  shows "emul_insn io c instr =
     (let a = effective_address c instr;
          v = regs c (instr_rb instr) AND 0xff;
          L = lua_interp c;
          c1 = c\<lparr>lua_interp := L\<lparr>lua_calls := lua_calls L @
                  (if has_data_write_hook L then [Data_write_hook a 8 v] else [])\<rparr>\<rparr>
      in case mem_map_write io (mem c) a 8 v of
           None \<Rightarrow> Inl (Write_failed, c1)
         | Some m \<Rightarrow> Inr (c1\<lparr>mem := m\<rparr>))"
  using assms
  by (simp add: emul_insn_def emul_ldr_str_eq cpu_mem_map_write_def Let_def split: option.split)

lemma emul_insn_lua_calls:
  "lua_interp (emul_cpu (emul_insn io c instr)) =
     (lua_interp c)\<lparr>lua_calls := lua_calls (lua_interp c) @
        (if instr_class instr = INSTR_LDR_STR \<and> ls_opc instr = LS_STR8
            \<and> has_data_write_hook (lua_interp c)
         then [Data_write_hook (effective_address c instr) 8 (regs c (instr_rb instr) AND 0xff)]
         else [])\<rparr>"
proof (cases "instr_class instr = INSTR_LDR_STR \<and> ls_opc instr = LS_STR8")
  case True
  then show ?thesis
    by (simp add: emul_insn_store emul_cpu_def Let_def split: option.split)
next
  case False
  have "lua_interp (emul_cpu (emul_insn io c instr)) = lua_interp c"
    using False emul_arithmetic_frame(5) [of c instr] emul_branch_frame(6) [of c instr]
    by (auto simp add: emul_insn_def Let_def emul_ldr_str_eq emul_cpu_def cpu_wr_reg_def
        split: option.split)
  with False show ?thesis
    by auto
qed




subsection \<open>The driver and the success callback\<close>

lemma cpu_cycle_lua_interp:
  "lua_interp (cycle_cpu (cpu_cycle io c)) =
     (case mem_map_read io (mem c) (pc c) 32 of
        None \<Rightarrow> lua_interp c
      | Some instr \<Rightarrow>
          if instr = SIM_SUCCESS \<or> instr = SIM_FAIL then lua_interp c
          else lua_interp (emul_cpu (emul_insn io (c\<lparr>next_pc := pc c + 4\<rparr>) instr)))"
  by (auto simp add: cpu_cycle_def cycle_cpu_def emul_cpu_def Let_def
      split: option.split sum.split prod.split)

lemma cpu_cycle_validate:
  "has_validate_result (lua_interp (cycle_cpu (cpu_cycle io c)))
     = has_validate_result (lua_interp c)"
  "count_list (lua_calls (lua_interp (cycle_cpu (cpu_cycle io c)))) Validate_result
     = count_list (lua_calls (lua_interp c)) Validate_result"
  by (simp_all add: cpu_cycle_lua_interp emul_insn_lua_calls split: option.split)

text \<open>
  C8. When the loop ends on a sentinel word, that word is SUCCESS or FAIL, and no call of
  the success callback was made during the loop. On SUCCESS \<^verbatim>\<open>main\<close> prints
  \<^verbatim>\<open>[SUCCESS]\<close>, calls the callback exactly once (the script's \<^verbatim>\<open>validate_result\<close>,
  when the script defines it) and exits with \<^verbatim>\<open>EXIT_SUCCESS\<close>; on FAIL it prints
  \<^verbatim>\<open>[FAIL]\<close>, makes no call and exits with \<^verbatim>\<open>EXIT_FAILURE\<close>.
\<close>

theorem success_callback:
  assumes run: "cycle_loop io (new_cpu m L) = Some (Inr (err, c))"
  shows "(err = SIM_SUCCESS \<or> err = SIM_FAIL)
     \<and> count_list (lua_calls (lua_interp c)) Validate_result
          = count_list (lua_calls L) Validate_result
     \<and> sim_main io m L =
         Some (Inr (if err = SIM_SUCCESS
                    then (''[SUCCESS]'', EXIT_SUCCESS,
                          c\<lparr>lua_interp := (lua_interp c)\<lparr>lua_calls := lua_calls (lua_interp c) @
                               (if has_validate_result L then [Validate_result] else [])\<rparr>\<rparr>)
                    else (''[FAIL]'', EXIT_FAILURE, c)))"
proof -
  let ?Q = "\<lambda>c. has_validate_result (lua_interp c) = has_validate_result L
              \<and> count_list (lua_calls (lua_interp c)) Validate_result
                  = count_list (lua_calls L) Validate_result"
  have "?Q (cycle_cpu (Inr (err, c)))"
    by (rule cycle_loop_invariant [OF run]) (simp_all add: new_cpu_def cpu_cycle_validate)
  then have q: "?Q c"
    by (simp add: cycle_cpu_def)
  have s: "err = SIM_SUCCESS \<or> err = SIM_FAIL"
    by (rule cycle_loop_status [OF run])
  have "sim_main io m L =
         Some (Inr (if err = SIM_SUCCESS
                    then (''[SUCCESS]'', EXIT_SUCCESS,
                          c\<lparr>lua_interp := (lua_interp c)\<lparr>lua_calls := lua_calls (lua_interp c) @
                               (if has_validate_result L then [Validate_result] else [])\<rparr>\<rparr>)
                    else (''[FAIL]'', EXIT_FAILURE, c)))"
    using q by (simp add: sim_main_def run validate_result_def Let_def)
  with q s show ?thesis
    by simp
qed

text \<open>The demonstration program succeeds, with one call; the FAIL word alone fails, with none.\<close>

theorem success_callback_witness:
  "cycle_loop cell_ops (new_cpu demo_rom test_script) = Some (Inr (SIM_SUCCESS, demo_final))
   \<and> sim_main cell_ops demo_rom test_script =
       Some (Inr (''[SUCCESS]'', EXIT_SUCCESS,
         demo_final\<lparr>lua_interp :=
           test_script\<lparr>lua_calls := [Data_write_hook 0x100 8 15, Validate_result]\<rparr>\<rparr>))
   \<and> cycle_loop cell_ops (new_cpu fail_rom test_script)
       = Some (Inr (SIM_FAIL, (new_cpu fail_rom test_script)\<lparr>next_pc := 4\<rparr>))
   \<and> sim_main cell_ops fail_rom test_script =
       Some (Inr (''[FAIL]'', EXIT_FAILURE, (new_cpu fail_rom test_script)\<lparr>next_pc := 4\<rparr>))"
  using success_callback [OF demo_run] success_callback [OF fail_run] demo_run fail_run
  by (simp add: demo_final_def test_script_def)

subsection \<open>The protocol constants\<close>

text \<open>
  C9. In the execution-status mask RUNNING is bit 0 and STOPPED_ON_BKPT is bit 1. The
  fifteen commands from STOP to GET_EXEC_STATUS are numbered 0 to 14 in the order listed;
  START_TRACE and SIM_TERM follow, and all seventeen codes are distinct.
\<close>

theorem protocol_constants:
  "map_of exec_status ''EXEC_STATUS_RUNNING'' = Some (2 ^ 0)
   \<and> map_of exec_status ''EXEC_STATUS_STOPPED_ON_BKPT'' = Some (2 ^ 1)
   \<and> take 15 dbg_cmd =
       [(''CMD_STOP'', 0), (''CMD_RUN'', 1), (''CMD_STEP'', 2), (''CMD_READ_REG'', 3),
        (''CMD_WRITE_REG'', 4), (''CMD_RMEM32'', 5), (''CMD_RMEM16'', 6), (''CMD_RMEM8'', 7),
        (''CMD_WMEM32'', 8), (''CMD_WMEM16'', 9), (''CMD_WMEM8'', 10), (''CMD_RESET'', 11),
        (''CMD_CACHE_SYNC'', 12), (''CMD_CPUID'', 13), (''CMD_GET_EXEC_STATUS'', 14)]
   \<and> drop 15 dbg_cmd = [(''CMD_START_TRACE'', - 2), (''CMD_SIM_TERM'', - 1)]
   \<and> distinct (map snd dbg_cmd)"
  by (simp add: exec_status_def dbg_cmd_def)

end
